theory Spec2Isabelle
  imports Main "HOL-Library.AList"
begin

section \<open>JavaScript values as handled by \<^verbatim>\<open>src/util/auth.js\<close>\<close>

text \<open>
  The module passes around plain JSON-like values: the auth user delivered by the identity
  provider, the profile row delivered by the database hook, and the three-valued
  \<^verbatim>\<open>user\<close> state (an object, \<^verbatim>\<open>null\<close> for loading, \<^verbatim>\<open>false\<close> for logged out).
  An object is an association list from property names to values and is only ever observed
  through property lookup, so the enumeration order of its keys is not modelled.
  Numbers and functions are left out of the value universe: no field that this module reads
  is numeric (ids are uuids, timestamps are ISO strings).
\<close>

datatype jsval =
    JUndefined
  | JNull
  | JBool bool
  | JStr string
  | JObj "(string \<times> jsval) list"
  | JArr "jsval list"

text \<open>What the exception mechanism can carry: a thrown value (\<^verbatim>\<open>throw response.error\<close>),
  an \<^verbatim>\<open>Error\<close> object built by \<^verbatim>\<open>new Error(message)\<close>, or the runtime's \<^verbatim>\<open>TypeError\<close>
  raised when a property of \<^verbatim>\<open>null\<close> or \<^verbatim>\<open>undefined\<close> is read.\<close>

datatype exn = Thrown jsval | JsError string | TypeError

text \<open>JavaScript truthiness (\<^verbatim>\<open>!v\<close>, \<^verbatim>\<open>a && b\<close>, \<^verbatim>\<open>a || b\<close>, \<^verbatim>\<open>if (v)\<close>).\<close>

fun truthy :: "jsval \<Rightarrow> bool" where
  "truthy JUndefined = False"
| "truthy JNull = False"
| "truthy (JBool b) = b"
| "truthy (JStr s) = (s \<noteq> [])"
| "truthy (JObj kvs) = True"
| "truthy (JArr xs) = True"

definition nullish :: "jsval \<Rightarrow> bool" where
  "nullish v = (v = JUndefined \<or> v = JNull)"

text \<open>The decimal name of an array or string index, as a property key.\<close>

definition digit_char :: "nat \<Rightarrow> char" where
  "digit_char d = ''0123456789'' ! d"

fun index_key :: "nat \<Rightarrow> string" where
  "index_key n =
     (if n < 10 then [digit_char n] else index_key (n div 10) @ [digit_char (n mod 10)])"

declare index_key.simps [simp del]

text \<open>The own enumerable properties of a value: the entries of an object, the indexed
  elements of an array, the indexed characters of a string, and nothing for the other
  primitives. This is what object spread \<^verbatim>\<open>{...v}\<close> copies.\<close>

fun own_props :: "jsval \<Rightarrow> (string \<times> jsval) list" where
  "own_props (JObj kvs) = kvs"
| "own_props (JArr xs) = zip (map index_key [0..<length xs]) xs"
| "own_props (JStr s) = zip (map index_key [0..<length s]) (map (\<lambda>c. JStr [c]) s)"
| "own_props v = []"

text \<open>Property read \<^verbatim>\<open>v.k\<close> / \<^verbatim>\<open>v[k]\<close>: a \<^verbatim>\<open>TypeError\<close> on \<^verbatim>\<open>null\<close> and \<^verbatim>\<open>undefined\<close>,
  the own property if present, \<^verbatim>\<open>undefined\<close> otherwise. Inherited properties
  (\<^verbatim>\<open>length\<close>, \<^verbatim>\<open>toString\<close>, ...) are not modelled; the module reads none of them.\<close>

definition field :: "jsval \<Rightarrow> string \<Rightarrow> jsval" where
  "field v k = (case map_of (own_props v) k of Some x \<Rightarrow> x | None \<Rightarrow> JUndefined)"

definition get_prop :: "jsval \<Rightarrow> string \<Rightarrow> exn + jsval" where
  "get_prop v k = (if nullish v then Inl TypeError else Inr (field v k))"

text \<open>Sequencing of computations that may throw.\<close>

fun and_then :: "exn + 'a \<Rightarrow> ('a \<Rightarrow> exn + 'b) \<Rightarrow> exn + 'b" where
  "and_then (Inl e) f = Inl e"
| "and_then (Inr v) f = f v"

text \<open>Object literals. \<^verbatim>\<open>{...acc, k: v}\<close> is \<open>set_prop\<close>; \<^verbatim>\<open>{...acc, ...v}\<close> is \<open>spread\<close>:
  a later entry overwrites an earlier one with the same key. Should an association list
  name a key twice, the first entry is the property, for lookup and for spread alike.\<close>

definition set_prop :: "string \<Rightarrow> jsval \<Rightarrow> (string \<times> jsval) list \<Rightarrow> (string \<times> jsval) list" where
  "set_prop k v acc = AList.update k v acc"

definition spread :: "jsval \<Rightarrow> (string \<times> jsval) list \<Rightarrow> (string \<times> jsval) list" where
  "spread v acc = AList.merge acc (own_props v)"

text \<open>String conversion as performed by a template literal \<^verbatim>\<open>`${v}`\<close>. A plain object
  is converted by the inherited \<^verbatim>\<open>Object.prototype.toString\<close>, unless it has an own property
  \<^verbatim>\<open>toString\<close>: no value of this universe is callable, so the conversion then finds no
  method that yields a primitive and raises a \<^verbatim>\<open>TypeError\<close>. An array is joined with commas,
  \<^verbatim>\<open>null\<close> and \<^verbatim>\<open>undefined\<close> elements giving the empty string, and the conversion of an
  element may raise in turn.\<close>

fun join_comma :: "string list \<Rightarrow> string" where
  "join_comma [] = []"
| "join_comma [s] = s"
| "join_comma (s # t # ss) = s @ '','' @ join_comma (t # ss)"

fun ToString :: "jsval \<Rightarrow> exn + string"
  and ToString_elements :: "jsval list \<Rightarrow> exn + string list" where
  "ToString JUndefined = Inr ''undefined''"
| "ToString JNull = Inr ''null''"
| "ToString (JBool b) = Inr (if b then ''true'' else ''false'')"
| "ToString (JStr s) = Inr s"
| "ToString (JObj kvs) =
     (if ''toString'' \<in> fst ` set kvs then Inl TypeError else Inr ''[object Object]'')"
| "ToString (JArr xs) =
     (case ToString_elements xs of Inl e \<Rightarrow> Inl e | Inr ss \<Rightarrow> Inr (join_comma ss))"
| "ToString_elements [] = Inr []"
| "ToString_elements (x # xs) =
     (case (if x = JUndefined \<or> x = JNull then Inr [] else ToString x) of
        Inl e \<Rightarrow> Inl e
      | Inr s \<Rightarrow>
          (case ToString_elements xs of Inl e \<Rightarrow> Inl e | Inr ss \<Rightarrow> Inr (s # ss)))"

section \<open>The Data Merge Stage: \<^verbatim>\<open>useMergeExtraData\<close>\<close>

text \<open>\<^verbatim>\<open>const MERGE_DB_USER = true;\<close>\<close>

definition MERGE_DB_USER :: bool where
  "MERGE_DB_USER = True"

text \<open>What the database hook \<^verbatim>\<open>useUser(key)\<close> hands back:
  \<^verbatim>\<open>const { data, status, error } = useUser(...)\<close>. The hook lives in \<^verbatim>\<open>./db\<close>; here its
  result is an input.\<close>

record query_result =
  data :: jsval
  status :: string
  error :: jsval

text \<open>The key handed to the hook: \<^verbatim>\<open>enabled && user && user.id\<close>.\<close>

definition useUser_key :: "bool \<Rightarrow> jsval \<Rightarrow> jsval" where
  "useUser_key enabled user =
     (if \<not> enabled then JBool False
      else if \<not> truthy user then user
      else field user ''id'')"

text \<open>The text of the error thrown on \<^verbatim>\<open>status === "error"\<close>: a template literal spanning
  five lines, with the interpolated \<^verbatim>\<open>error.message\<close>.\<close>

definition nl :: string where
  "nl = [CHR 0x0A]"

definition profile_fetch_message :: "string \<Rightarrow> string" where
  "profile_fetch_message m =
     nl @ ''          Error: '' @ m @
     nl @ ''          This happened while attempting to fetch extra user data from the database'' @
     nl @ ''          to include with the authenticated user. Make sure the database is setup or'' @
     nl @ ''          disable merging extra user data by setting MERGE_DB_USER to false.'' @
     nl @ ''        ''"

text \<open>The body of the memoised callback of \<^verbatim>\<open>useMergeExtraData(user, { enabled })\<close>.\<close>

definition useMergeExtraData :: "jsval \<Rightarrow> bool \<Rightarrow> query_result \<Rightarrow> exn + jsval" where
  "useMergeExtraData user enabled q =
     (if \<not> enabled \<or> \<not> truthy user then Inr user
      else if status q = ''success'' then
        (if data q = JNull then Inr JNull
         else Inr (JObj (spread (data q) (spread user []))))
      else if status q = ''error'' then
        and_then (get_prop (error q) ''message'')
          (\<lambda>m. and_then (ToString m)
             (\<lambda>text. Inl (JsError (profile_fetch_message text))))
      else Inr JNull)"

section \<open>The Presentation Formatter: \<^verbatim>\<open>useFormatUser\<close>\<close>

text \<open>\<^verbatim>\<open>(user.customers && user.customers[0]) || {}\<close>\<close>

definition customer_of :: "jsval \<Rightarrow> jsval" where
  "customer_of user =
     (let customers = field user ''customers'';
          c = (if truthy customers then field customers ''0'' else customers)
      in if truthy c then c else JObj [])"

text \<open>\<^verbatim>\<open>["active", "trialing"].includes(customer.stripe_subscription_status)\<close>\<close>

definition planIsActive :: "jsval \<Rightarrow> bool" where
  "planIsActive customer =
     (field customer ''stripe_subscription_status'' \<in> set [JStr ''active'', JStr ''trialing''])"

text \<open>The body of the memoised callback of \<^verbatim>\<open>useFormatUser(user)\<close>. The two imported helpers,
  \<^verbatim>\<open>camelcaseKeys\<close> (package \<^verbatim>\<open>camelcase-keys\<close>) and \<^verbatim>\<open>getFriendlyPlanId\<close> (\<^verbatim>\<open>./prices\<close>), are
  parameters.\<close>

definition useFormatUser ::
  "(jsval \<Rightarrow> jsval) \<Rightarrow> (jsval \<Rightarrow> jsval) \<Rightarrow> jsval \<Rightarrow> exn + jsval" where
  "useFormatUser camelcaseKeys getFriendlyPlanId user =
     (if \<not> truthy user then Inr user
      else
        and_then (get_prop (field user ''app_metadata'') ''provider'') (\<lambda>p.
          let provider = (if p = JStr ''email'' then JStr ''password'' else p);
              providers = JArr [provider];
              customer = customer_of user;
              price = field customer ''stripe_price_id''
          in Inr (JObj
               (set_prop ''planIsActive'' (JBool (planIsActive customer))
               (spread (if truthy price
                        then JObj [(''planId'', getFriendlyPlanId price)] else price)
               (spread (camelcaseKeys customer)
               (set_prop ''providers'' providers
               (set_prop ''uid'' (field user ''id'')
               (spread user [])))))))))"

text \<open>\<^verbatim>\<open>let finalUser = useMergeExtraData(user, { enabled: MERGE_DB_USER });
  finalUser = useFormatUser(finalUser);\<close> An exception thrown by the first hook leaves the
  render before the second is called.\<close>

definition finalUser ::
  "(jsval \<Rightarrow> jsval) \<Rightarrow> (jsval \<Rightarrow> jsval) \<Rightarrow> jsval \<Rightarrow> query_result \<Rightarrow> exn + jsval" where
  "finalUser camelcaseKeys getFriendlyPlanId user q =
     and_then (useMergeExtraData user MERGE_DB_USER q)
       (useFormatUser camelcaseKeys getFriendlyPlanId)"

section \<open>Promises\<close>

text \<open>Time is counted in turns of the event loop. A promise either settles at some turn,
  fulfilled (\<open>Inr\<close>) or rejected (\<open>Inl\<close>), or never settles.\<close>

datatype 'a promise = Settles nat "exn + 'a" | Never

datatype 'a promise_state = Pending | Fulfilled 'a | Rejected exn

fun state_at :: "'a promise \<Rightarrow> nat \<Rightarrow> 'a promise_state" where
  "state_at Never t = Pending"
| "state_at (Settles n r) t =
     (if t < n then Pending else (case r of Inl e \<Rightarrow> Rejected e | Inr v \<Rightarrow> Fulfilled v))"

text \<open>\<^verbatim>\<open>new Promise(executor)\<close>. The executor is given by the calls to \<^verbatim>\<open>resolve\<close> and
  \<^verbatim>\<open>reject\<close> that it makes or schedules, in order of time; the first one settles the
  promise. An executor that makes none and lets neither callback escape leaves the promise
  pending for good.\<close>

fun new_Promise :: "(nat \<times> (exn + 'a)) list \<Rightarrow> 'a promise" where
  "new_Promise [] = Never"
| "new_Promise ((t, r) # calls) = Settles t r"

text \<open>\<^verbatim>\<open>p.then(f)\<close> for a callback that returns a value or throws, and for one that returns a
  promise, whose turn count starts when the callback runs.\<close>

fun then_value :: "'a promise \<Rightarrow> ('a \<Rightarrow> exn + 'b) \<Rightarrow> 'b promise" where
  "then_value Never f = Never"
| "then_value (Settles n (Inl e)) f = Settles n (Inl e)"
| "then_value (Settles n (Inr v)) f = Settles n (f v)"

fun then_promise :: "'a promise \<Rightarrow> ('a \<Rightarrow> 'b promise) \<Rightarrow> 'b promise" where
  "then_promise Never f = Never"
| "then_promise (Settles n (Inl e)) f = Settles n (Inl e)"
| "then_promise (Settles n (Inr v)) f =
     (case f v of Never \<Rightarrow> Never | Settles m r \<Rightarrow> Settles (n + m) r)"

text \<open>\<^verbatim>\<open>p.then(f)\<close> for a callback that also writes the hook's state.\<close>

fun then_state :: "'a promise \<Rightarrow> ('a \<Rightarrow> 's \<Rightarrow> (exn + 'b) \<times> 's) \<Rightarrow> 's \<Rightarrow> 'b promise \<times> 's" where
  "then_state Never f s = (Never, s)"
| "then_state (Settles n (Inl e)) f s = (Settles n (Inl e), s)"
| "then_state (Settles n (Inr v)) f s = (case f v s of (r, s') \<Rightarrow> (Settles n r, s'))"

section \<open>The Session State Machine: \<^verbatim>\<open>useAuthProvider\<close>\<close>

text \<open>The hook's state is the single cell \<^verbatim>\<open>const [user, setUser] = useState(null)\<close>; the
  functions below take its current value and return the new one. The calls of the identity
  provider client (\<^verbatim>\<open>supabase.auth.signUp\<close>, \<^verbatim>\<open>signIn\<close>, \<^verbatim>\<open>update\<close>) and of \<^verbatim>\<open>updateUser\<close>
  from \<^verbatim>\<open>./db\<close> are parameters that return the promise of the call.\<close>

text \<open>\<^verbatim>\<open>function handleError(response) { if (response.error) throw response.error;
  return response; }\<close>\<close>

definition handleError :: "jsval \<Rightarrow> exn + jsval" where
  "handleError response =
     and_then (get_prop response ''error'')
       (\<lambda>e. if truthy e then Inl (Thrown e) else Inr response)"

definition unconfirmed_message :: string where
  "unconfirmed_message =
     ''Thanks for signing up! Please check your email to complete the process.''"

text \<open>\<^verbatim>\<open>handleAuth\<close>: destructure \<^verbatim>\<open>user\<close> from the response, throw unless
  \<^verbatim>\<open>user.email_confirmed_at\<close> is truthy, otherwise \<^verbatim>\<open>setUser(user)\<close> and return it.\<close>

definition handleAuth :: "jsval \<Rightarrow> jsval \<Rightarrow> (exn + jsval) \<times> jsval" where
  "handleAuth response cur =
     (case get_prop response ''user'' of
        Inl e \<Rightarrow> (Inl e, cur)
      | Inr u \<Rightarrow>
          (case get_prop u ''email_confirmed_at'' of
             Inl e \<Rightarrow> (Inl e, cur)
           | Inr confirmed \<Rightarrow>
               if \<not> truthy confirmed then (Inl (JsError unconfirmed_message), cur)
               else (Inr u, u)))"

text \<open>\<^verbatim>\<open>supabase.auth.signUp({ email, password }).then(handleError).then(handleAuth)\<close>\<close>

definition signup ::
  "(jsval \<Rightarrow> jsval \<Rightarrow> jsval promise) \<Rightarrow> jsval \<Rightarrow> jsval \<Rightarrow> jsval \<Rightarrow> jsval promise \<times> jsval" where
  "signup signUp email password cur =
     then_state (then_value (signUp email password) handleError) handleAuth cur"

text \<open>\<^verbatim>\<open>supabase.auth.signIn({ email, password }).then(handleError).then(handleAuth)\<close>\<close>

definition signin ::
  "(jsval \<Rightarrow> jsval \<Rightarrow> jsval promise) \<Rightarrow> jsval \<Rightarrow> jsval \<Rightarrow> jsval \<Rightarrow> jsval promise \<times> jsval" where
  "signin signIn email password cur =
     then_state (then_value (signIn email password) handleError) handleAuth cur"

text \<open>\<^verbatim>\<open>supabase.auth.signIn({ provider: name }, { redirectTo }).then(handleError)
  .then(() => { return new Promise(() => null); })\<close>: the executor calls neither callback.\<close>

definition signinWithProvider :: "(jsval \<Rightarrow> jsval promise) \<Rightarrow> jsval \<Rightarrow> jsval promise" where
  "signinWithProvider signIn name =
     then_promise (then_value (signIn name) handleError) (\<lambda>_. new_Promise [])"




text \<open>The external calls that \<^verbatim>\<open>updateProfile\<close> issues: \<^verbatim>\<open>supabase.auth.update({ email })\<close> and
  \<^verbatim>\<open>updateUser(user.id, other)\<close>.\<close>

datatype call = AuthUpdate jsval | DbUpdateUser jsval jsval


section \<open>The Gate: \<^verbatim>\<open>requireAuth\<close>\<close>

text \<open>The object returned by \<^verbatim>\<open>useAuthProvider\<close> and handed out by \<^verbatim>\<open>useAuth()\<close>: its
  reference (every call of \<^verbatim>\<open>useAuthProvider\<close> builds a new object literal) and its
  \<^verbatim>\<open>user\<close> property.\<close>

type_synonym auth = "nat \<times> jsval"

datatype view = PageLoader | Component

text \<open>What the wrapper keeps between renders: the dependency \<^verbatim>\<open>[auth]\<close> of the effect as of
  the previous render (none before the first), and how often \<^verbatim>\<open>history.replace("/auth/signin")\<close>
  has been called.\<close>

record gate =
  deps :: "nat option"
  redirects :: nat

text \<open>One render of the wrapper returned by \<^verbatim>\<open>requireAuth(Component)\<close>, followed by its
  effect: React runs the effect after the first render and after every render in which
  \<^verbatim>\<open>auth\<close> is not the object of the previous render.\<close>

definition requireAuth :: "auth \<Rightarrow> gate \<Rightarrow> view \<times> gate" where
  "requireAuth a g =
     (if \<not> truthy (snd a) then PageLoader else Component,
      if deps g = Some (fst a) then g
      else \<lparr>deps = Some (fst a),
            redirects = (if snd a = JBool False then redirects g + 1 else redirects g)\<rparr>)"

text \<open>The renders the wrapper goes through. \<open>ProviderRender u\<close>: \<^verbatim>\<open>AuthProvider\<close> renders, so
  \<^verbatim>\<open>useAuthProvider\<close> runs, computes \<^verbatim>\<open>finalUser = u\<close> and returns a new object, and the
  wrapper, a consumer of the context, renders with it. \<open>GateRender\<close>: the wrapper renders
  again on its own (new props) with the context value unchanged.\<close>

datatype render = ProviderRender jsval | GateRender

record app =
  next_ref :: nat
  current_auth :: auth
  gate_state :: gate
  shown :: view

definition mount :: "jsval \<Rightarrow> app" where
  "mount u =
     (case requireAuth (0, u) \<lparr>deps = None, redirects = 0\<rparr> of
        (v, g) \<Rightarrow> \<lparr>next_ref = 1, current_auth = (0, u), gate_state = g, shown = v\<rparr>)"

fun render_step :: "render \<Rightarrow> app \<Rightarrow> app" where
  "render_step (ProviderRender u) s =
     (case requireAuth (next_ref s, u) (gate_state s) of
        (v, g) \<Rightarrow> \<lparr>next_ref = next_ref s + 1, current_auth = (next_ref s, u),
                   gate_state = g, shown = v\<rparr>)"
| "render_step GateRender s =
     (case requireAuth (current_auth s) (gate_state s) of
        (v, g) \<Rightarrow> s\<lparr>gate_state := g, shown := v\<rparr>)"

definition renders :: "jsval \<Rightarrow> render list \<Rightarrow> app" where
  "renders u rs = fold render_step rs (mount u)"

text \<open>The sequence of \<^verbatim>\<open>auth.user\<close> values of the successive \<^verbatim>\<open>AuthProvider\<close> renders, and the
  number of its transitions into \<^verbatim>\<open>false\<close> (logged out): entries that are \<^verbatim>\<open>false\<close> and whose
  predecessor, if any, is not.\<close>

fun provider_users :: "render list \<Rightarrow> jsval list" where
  "provider_users [] = []"
| "provider_users (ProviderRender u # rs) = u # provider_users rs"
| "provider_users (GateRender # rs) = provider_users rs"

fun entries_into_false :: "jsval \<Rightarrow> jsval list \<Rightarrow> nat" where
  "entries_into_false prev [] = 0"
| "entries_into_false prev (u # us) =
     (if u = JBool False \<and> prev \<noteq> JBool False then 1 else 0) + entries_into_false u us"

definition transitions_into_anonymous :: "jsval \<Rightarrow> render list \<Rightarrow> nat" where
  "transitions_into_anonymous u rs = entries_into_false JNull (u # provider_users rs)"

section \<open>The Profile Store Accessor: \<^verbatim>\<open>useUser\<close>\<close>

text \<open>Modelled from the spec: the hook \<^verbatim>\<open>useUser\<close> of \<^verbatim>\<open>./db\<close>, which \<^verbatim>\<open>useMergeExtraData\<close>
  calls with the key \<^verbatim>\<open>enabled && user && user.id\<close>, is not part of the sources at hand.
  The spec describes it as a keyed query with a result \<^verbatim>\<open>{data, status, error}\<close>,
  \<^verbatim>\<open>status\<close> one of idle, loading, success, error, that is active only for an authenticated
  user (a truthy key) and receives live updates; switching the key cancels interest in the
  old key, and a result is applied only after comparing the id it was issued for against
  the current one. The accessor is the key the query is issued for and the result it
  currently reports.\<close>

record accessor =
  active_key :: jsval
  reported :: query_result

definition idle_result :: query_result where
  "idle_result = \<lparr>data = JUndefined, status = ''idle'', error = JNull\<rparr>"

definition loading_result :: query_result where
  "loading_result = \<lparr>data = JUndefined, status = ''loading'', error = JNull\<rparr>"

text \<open>Modelled from the spec: the key of the query changes (or the query becomes disabled,
  a falsy key); the result starts afresh.\<close>

definition switch_key :: "jsval \<Rightarrow> accessor \<Rightarrow> accessor" where
  "switch_key k a =
     (if k = active_key a then a
      else \<lparr>active_key = k, reported = (if truthy k then loading_result else idle_result)\<rparr>)"

text \<open>Modelled from the spec: a result issued for key \<open>k\<close> arrives from the profile store.\<close>

definition deliver :: "jsval \<Rightarrow> query_result \<Rightarrow> accessor \<Rightarrow> accessor" where
  "deliver k r a =
     (if truthy (active_key a) \<and> k = active_key a then a\<lparr>reported := r\<rparr> else a)"

text \<open>The two kinds of events that drive the Data Merge Stage, and the state they act on:
  the hook's \<^verbatim>\<open>user\<close> and the accessor, keyed as \<^verbatim>\<open>useMergeExtraData\<close> keys it.\<close>

datatype store_event = SessionChange jsval | StoreResult jsval query_result

fun merge_step :: "store_event \<Rightarrow> jsval \<times> accessor \<Rightarrow> jsval \<times> accessor" where
  "merge_step (SessionChange u) (cur, a) = (u, switch_key (useUser_key MERGE_DB_USER u) a)"
| "merge_step (StoreResult k r) (cur, a) = (cur, deliver k r a)"

definition merged_user :: "jsval \<times> accessor \<Rightarrow> exn + jsval" where
  "merged_user s = useMergeExtraData (fst s) MERGE_DB_USER (reported (snd s))"

text \<open>A result is stale for key \<open>b\<close> when it was issued for another key.\<close>

fun fresh_for :: "jsval \<Rightarrow> store_event \<Rightarrow> bool" where
  "fresh_for b (StoreResult k r) = (k = b)"
| "fresh_for b (SessionChange u) = True"

fun is_result :: "store_event \<Rightarrow> bool" where
  "is_result (StoreResult k r) = True"
| "is_result (SessionChange u) = False"

section \<open>Sample values for the worked examples\<close>

text \<open>A stand-in for \<^verbatim>\<open>camelcaseKeys\<close> that renames the columns of \<^verbatim>\<open>public.customers\<close>
  (\<^verbatim>\<open>schema.sql\<close>), a stand-in for the price table behind \<^verbatim>\<open>getFriendlyPlanId\<close>, an auth
  user as the identity provider delivers it, a profile row with its billing record, and
  provider calls that answer after one turn.\<close>

definition camel_name :: "string \<Rightarrow> string" where
  "camel_name k =
     (if k = ''stripe_customer_id'' then ''stripeCustomerId''
      else if k = ''stripe_subscription_id'' then ''stripeSubscriptionId''
      else if k = ''stripe_price_id'' then ''stripePriceId''
      else if k = ''stripe_subscription_status'' then ''stripeSubscriptionStatus''
      else k)"

definition sample_camelcaseKeys :: "jsval \<Rightarrow> jsval" where
  "sample_camelcaseKeys v =
     (case v of JObj kvs \<Rightarrow> JObj (map (\<lambda>(k, x). (camel_name k, x)) kvs) | _ \<Rightarrow> v)"

definition sample_getFriendlyPlanId :: "jsval \<Rightarrow> jsval" where
  "sample_getFriendlyPlanId price = (if price = JStr ''price_pro'' then JStr ''pro'' else JUndefined)"

definition session_ada :: jsval where
  "session_ada =
     JObj [(''id'', JStr ''U''), (''email'', JStr ''ada@auth.io''),
           (''email_confirmed_at'', JStr ''2021-06-01T10:00:00Z''),
           (''app_metadata'', JObj [(''provider'', JStr ''email'')])]"

definition session_unconfirmed :: jsval where
  "session_unconfirmed =
     JObj [(''id'', JStr ''V''), (''email'', JStr ''bob@auth.io''),
           (''app_metadata'', JObj [(''provider'', JStr ''email'')])]"

definition billing_ada :: jsval where
  "billing_ada =
     JObj [(''id'', JStr ''U''), (''stripe_customer_id'', JStr ''cus_1''),
           (''stripe_subscription_id'', JStr ''sub_1''), (''stripe_price_id'', JStr ''price_pro''),
           (''stripe_subscription_status'', JStr ''trialing'')]"

definition profile_ada :: jsval where
  "profile_ada =
     JObj [(''id'', JStr ''U''), (''email'', JStr ''ada@db.io''), (''name'', JStr ''Ada''),
           (''customers'', JArr [billing_ada])]"

definition merged_ada :: jsval where
  "merged_ada =
     JObj [(''id'', JStr ''U''), (''email'', JStr ''ada@db.io''),
           (''email_confirmed_at'', JStr ''2021-06-01T10:00:00Z''),
           (''app_metadata'', JObj [(''provider'', JStr ''email'')]),
           (''name'', JStr ''Ada''), (''customers'', JArr [billing_ada])]"

definition merged_github :: jsval where
  "merged_github =
     JObj [(''id'', JStr ''W''), (''email'', JStr ''eve@db.io''),
           (''app_metadata'', JObj [(''provider'', JStr ''github'')]),
           (''name'', JStr ''Eve'')]"

definition query_idle :: query_result where
  "query_idle = \<lparr>data = JUndefined, status = ''idle'', error = JNull\<rparr>"

definition query_loading :: query_result where
  "query_loading = \<lparr>data = JUndefined, status = ''loading'', error = JNull\<rparr>"

definition query_absent :: query_result where
  "query_absent = \<lparr>data = JNull, status = ''success'', error = JNull\<rparr>"

definition query_present :: query_result where
  "query_present = \<lparr>data = profile_ada, status = ''success'', error = JNull\<rparr>"

definition query_failed :: query_result where
  "query_failed =
     \<lparr>data = JUndefined, status = ''error'',
      error = JObj [(''message'', JStr ''relation users does not exist'')]\<rparr>"

definition query_failed_unprintable :: query_result where
  "query_failed_unprintable =
     \<lparr>data = JUndefined, status = ''error'',
      error = JObj [(''message'', JObj [(''toString'', JStr ''no method'')])]\<rparr>"

definition provider_answers :: "jsval \<Rightarrow> jsval \<Rightarrow> jsval \<Rightarrow> jsval promise" where
  "provider_answers response email password = Settles 1 (Inr response)"

definition provider_redirects :: "jsval \<Rightarrow> jsval promise" where
  "provider_redirects name = Settles 1 (Inr (JObj [(''user'', JNull), (''error'', JNull)]))"





section \<open>Facts about property lookup\<close>

lemma field_set_prop:
  "field (JObj (set_prop k v acc)) k' = (if k' = k then v else field (JObj acc) k')"
  by (simp add: field_def set_prop_def update_conv')

lemma field_spread:
  "field (JObj (spread v acc)) k =
     (case map_of (own_props v) k of Some x \<Rightarrow> x | None \<Rightarrow> field (JObj acc) k)"
  by (simp add: field_def spread_def merge_conv' map_add_def split: option.splits)

lemma profile_fetch_message_inject:
  "(profile_fetch_message a = profile_fetch_message b) = (a = b)"
  by (simp add: profile_fetch_message_def)

lemma ToString_raises:
  "ToString v = Inl e \<Longrightarrow> e = TypeError"
  "ToString_elements vs = Inl e \<Longrightarrow> e = TypeError"
  by (induction v and vs rule: ToString_ToString_elements.induct)
     (auto split: sum.splits if_splits)

lemma map_of_spread: "map_of (spread v acc) = map_of acc ++ map_of (own_props v)"
  by (simp add: spread_def merge_conv')

lemma index_key_0: "index_key 0 = ''0''"
  by (simp add: index_key.simps digit_char_def)

lemma field_JArr_Cons: "field (JArr (c # cs)) ''0'' = c"
  by (simp add: field_def upt_conv_Cons index_key_0 del: upt_Suc)

lemma field_JArr_Nil: "field (JArr []) k = JUndefined"
  by (simp add: field_def)

lemma customer_of_first:
  "field user ''customers'' = JArr (c # cs) \<Longrightarrow> truthy c \<Longrightarrow> customer_of user = c"
  by (simp add: customer_of_def field_JArr_Cons)

lemma customer_of_none:
  "\<not> truthy (field user ''customers'') \<or> field user ''customers'' = JArr [] \<Longrightarrow>
   customer_of user = JObj []"
  by (auto simp: customer_of_def field_JArr_Nil Let_def)

lemma useFormatUser_truthy:
  "truthy user \<Longrightarrow> \<not> nullish (field user ''app_metadata'') \<Longrightarrow>
   useFormatUser cc plan user =
     Inr (JObj
       (set_prop ''planIsActive'' (JBool (planIsActive (customer_of user)))
       (spread (if truthy (field (customer_of user) ''stripe_price_id'')
                then JObj [(''planId'', plan (field (customer_of user) ''stripe_price_id''))]
                else field (customer_of user) ''stripe_price_id'')
       (spread (cc (customer_of user))
       (set_prop ''providers''
          (JArr [if field (field user ''app_metadata'') ''provider'' = JStr ''email''
                 then JStr ''password''
                 else field (field user ''app_metadata'') ''provider''])
       (set_prop ''uid'' (field user ''id'')
       (spread user [])))))))"
  by (simp add: useFormatUser_def get_prop_def Let_def)

section \<open>The Data Merge Stage\<close>

text \<open>Claim C1. With merging switched on (\<open>MERGE_DB_USER\<close>), the recomputation returns
  \<^verbatim>\<open>null\<close> (Loading) for the session user \<^verbatim>\<open>null\<close> and \<^verbatim>\<open>false\<close> (Anonymous) for the session
  user \<^verbatim>\<open>false\<close>, whatever the profile query reports. For an authenticated session user (any
  truthy value) it returns \<^verbatim>\<open>null\<close> while the query is pending (a status other than
  \<^verbatim>\<open>"success"\<close> and \<^verbatim>\<open>"error"\<close>, so \<^verbatim>\<open>"idle"\<close> and \<^verbatim>\<open>"loading"\<close>) and when it succeeded with
  \<^verbatim>\<open>data === null\<close> (no profile row yet), never \<^verbatim>\<open>false\<close> and never an object. When the query
  succeeded with a record, it returns an object that has, under every key, the profile's
  property if the profile has that key and the session user's property otherwise.\<close>

theorem useMergeExtraData_recomputation:
  "(useMergeExtraData JNull MERGE_DB_USER q = Inr JNull) \<and>
   (useMergeExtraData (JBool False) MERGE_DB_USER q = Inr (JBool False)) \<and>
   (truthy user \<and> status q \<noteq> ''success'' \<and> status q \<noteq> ''error'' \<longrightarrow>
      useMergeExtraData user MERGE_DB_USER q = Inr JNull) \<and>
   (truthy user \<and> status q = ''success'' \<and> data q = JNull \<longrightarrow>
      useMergeExtraData user MERGE_DB_USER q = Inr JNull) \<and>
   (truthy user \<and> status q = ''success'' \<and> data q \<noteq> JNull \<longrightarrow>
      (\<exists>kvs. useMergeExtraData user MERGE_DB_USER q = Inr (JObj kvs) \<and>
         (\<forall>k. field (JObj kvs) k =
            (case map_of (own_props (data q)) k of
               Some x \<Rightarrow> x
             | None \<Rightarrow> field user k))))"
  by (simp add: useMergeExtraData_def MERGE_DB_USER_def field_def map_of_spread map_add_def
        split: option.splits)

theorem useMergeExtraData_recomputation_witness:
  "useMergeExtraData JNull MERGE_DB_USER query_idle = Inr JNull \<and>
   useMergeExtraData (JBool False) MERGE_DB_USER query_idle = Inr (JBool False) \<and>
   useMergeExtraData session_ada MERGE_DB_USER query_loading = Inr JNull \<and>
   useMergeExtraData session_ada MERGE_DB_USER query_absent = Inr JNull \<and>
   (\<exists>kvs. useMergeExtraData session_ada MERGE_DB_USER query_present = Inr (JObj kvs) \<and>
      field (JObj kvs) ''id'' = JStr ''U'' \<and>
      field (JObj kvs) ''email'' = JStr ''ada@db.io'' \<and>
      field (JObj kvs) ''email_confirmed_at'' = JStr ''2021-06-01T10:00:00Z'' \<and>
      field (JObj kvs) ''name'' = JStr ''Ada'')"
proof -
  have a: "useMergeExtraData JNull MERGE_DB_USER query_idle = Inr JNull"
    using useMergeExtraData_recomputation [of query_idle session_ada] by blast
  have b: "useMergeExtraData (JBool False) MERGE_DB_USER query_idle = Inr (JBool False)"
    using useMergeExtraData_recomputation [of query_idle session_ada] by blast
  have c: "useMergeExtraData session_ada MERGE_DB_USER query_loading = Inr JNull"
    using useMergeExtraData_recomputation [of query_loading session_ada]
    by (simp add: query_loading_def session_ada_def)
  have d: "useMergeExtraData session_ada MERGE_DB_USER query_absent = Inr JNull"
    using useMergeExtraData_recomputation [of query_absent session_ada]
    by (simp add: query_absent_def session_ada_def)
  have pre: "truthy session_ada \<and> status query_present = ''success'' \<and> data query_present \<noteq> JNull"
    by (simp add: query_present_def session_ada_def profile_ada_def)
  from useMergeExtraData_recomputation [of query_present session_ada] pre
  obtain kvs where k: "useMergeExtraData session_ada MERGE_DB_USER query_present = Inr (JObj kvs)"
    and f: "\<forall>k. field (JObj kvs) k =
            (case map_of (own_props (data query_present)) k of
               Some x \<Rightarrow> x
             | None \<Rightarrow> field session_ada k)"
    by blast
  have "field (JObj kvs) ''id'' = JStr ''U''"
    using f by (simp add: query_present_def profile_ada_def)
  moreover have "field (JObj kvs) ''email'' = JStr ''ada@db.io''"
    using f by (simp add: query_present_def profile_ada_def)
  moreover have "field (JObj kvs) ''email_confirmed_at'' = JStr ''2021-06-01T10:00:00Z''"
    using f by (simp add: query_present_def profile_ada_def session_ada_def field_def)
  moreover have "field (JObj kvs) ''name'' = JStr ''Ada''"
    using f by (simp add: query_present_def profile_ada_def)
  ultimately show ?thesis using a b c d k by blast
qed

text \<open>Claim C3. The Data Merge Stage throws the profile-fetch error carrying \<open>reason\<close> if and
  only if the session user is authenticated (truthy) and the profile query reports status
  \<^verbatim>\<open>"error"\<close> with an error (not \<^verbatim>\<open>null\<close>) whose \<^verbatim>\<open>message\<close> converts to the string
  \<open>reason\<close>; a message that cannot be converted raises a \<^verbatim>\<open>TypeError\<close> instead. The same
  holds of the formatted user
  that \<^verbatim>\<open>useAuthProvider\<close> hands out: the error leaves the render as it is, and the
  Presentation Formatter, which runs after the merge, neither swallows it nor turns it into
  \<^verbatim>\<open>null\<close> or \<^verbatim>\<open>false\<close>; nor does the formatter raise such an error on its own.\<close>

theorem profile_fetch_error_surfaced:
  "(useMergeExtraData user MERGE_DB_USER q = Inl (JsError (profile_fetch_message reason))) =
     (truthy user \<and> status q = ''error'' \<and> \<not> nullish (error q) \<and>
      ToString (field (error q) ''message'') = Inr reason) \<and>
   (finalUser camelcaseKeys getFriendlyPlanId user q =
      Inl (JsError (profile_fetch_message reason))) =
     (truthy user \<and> status q = ''error'' \<and> \<not> nullish (error q) \<and>
      ToString (field (error q) ''message'') = Inr reason)"
proof -
  have fmt: "useFormatUser camelcaseKeys getFriendlyPlanId v \<noteq> Inl (JsError m)" for v m
    by (auto simp: useFormatUser_def get_prop_def Let_def)
  have m: "(useMergeExtraData user MERGE_DB_USER q = Inl (JsError (profile_fetch_message reason))) =
     (truthy user \<and> status q = ''error'' \<and> \<not> nullish (error q) \<and>
      ToString (field (error q) ''message'') = Inr reason)"
    by (cases "ToString (field (error q) ''message'')")
       (auto simp: useMergeExtraData_def MERGE_DB_USER_def get_prop_def
          profile_fetch_message_inject dest: ToString_raises(1))
  have f: "(finalUser camelcaseKeys getFriendlyPlanId user q =
              Inl (JsError (profile_fetch_message reason))) =
     (useMergeExtraData user MERGE_DB_USER q = Inl (JsError (profile_fetch_message reason)))"
    by (cases "useMergeExtraData user MERGE_DB_USER q") (auto simp: finalUser_def fmt)
  show ?thesis using m f by simp
qed

theorem profile_fetch_error_surfaced_witness:
  "useMergeExtraData session_ada MERGE_DB_USER query_failed =
     Inl (JsError (profile_fetch_message ''relation users does not exist'')) \<and>
   finalUser sample_camelcaseKeys sample_getFriendlyPlanId session_ada query_failed =
     Inl (JsError (profile_fetch_message ''relation users does not exist'')) \<and>
   useMergeExtraData session_ada MERGE_DB_USER query_loading \<noteq>
     Inl (JsError (profile_fetch_message ''relation users does not exist'')) \<and>
   useMergeExtraData (JBool False) MERGE_DB_USER query_failed \<noteq>
     Inl (JsError (profile_fetch_message ''relation users does not exist'')) \<and>
   useMergeExtraData session_ada MERGE_DB_USER query_failed_unprintable \<noteq>
     Inl (JsError (profile_fetch_message ''[object Object]''))"
proof -
  have a: "truthy session_ada \<and> status query_failed = ''error'' \<and> \<not> nullish (error query_failed) \<and>
      ToString (field (error query_failed) ''message'') = Inr ''relation users does not exist''"
    by (simp add: session_ada_def query_failed_def nullish_def field_def)
  have b: "status query_loading \<noteq> ''error''"
    by (simp add: query_loading_def)
  have c: "ToString (field (error query_failed_unprintable) ''message'') \<noteq>
      Inr ''[object Object]''"
    by (simp add: query_failed_unprintable_def field_def)
  show ?thesis
    using a b c
      profile_fetch_error_surfaced [of session_ada query_failed "''relation users does not exist''"
        sample_camelcaseKeys sample_getFriendlyPlanId]
      profile_fetch_error_surfaced [of session_ada query_loading "''relation users does not exist''"
        sample_camelcaseKeys sample_getFriendlyPlanId]
      profile_fetch_error_surfaced [of "JBool False" query_failed "''relation users does not exist''"
        sample_camelcaseKeys sample_getFriendlyPlanId]
      profile_fetch_error_surfaced [of session_ada query_failed_unprintable "''[object Object]''"
        sample_camelcaseKeys sample_getFriendlyPlanId]
    by simp
qed

section \<open>The Presentation Formatter\<close>

text \<open>Claim C5. For every authenticated merged user (truthy, with its \<^verbatim>\<open>app_metadata\<close>) the
  formatter returns an object whose \<^verbatim>\<open>planIsActive\<close> property is the boolean that is true
  exactly when the subscription status of the billing record, the first entry of
  \<^verbatim>\<open>user.customers\<close>, is \<^verbatim>\<open>"active"\<close> or \<^verbatim>\<open>"trialing"\<close>. It is the boolean \<^verbatim>\<open>false\<close>, not a
  missing property, for every other status, for a missing status, and when there is no
  billing record (\<^verbatim>\<open>customers\<close> missing, \<^verbatim>\<open>null\<close> or empty).\<close>

theorem planIsActive_allow_list:
  assumes "truthy user" and "\<not> nullish (field user ''app_metadata'')"
  shows "\<exists>kvs. useFormatUser camelcaseKeys getFriendlyPlanId user = Inr (JObj kvs) \<and>
     field (JObj kvs) ''planIsActive'' =
       JBool (field (customer_of user) ''stripe_subscription_status'' = JStr ''active'' \<or>
              field (customer_of user) ''stripe_subscription_status'' = JStr ''trialing'') \<and>
     (\<forall>c cs. field user ''customers'' = JArr (c # cs) \<and> truthy c \<longrightarrow> customer_of user = c) \<and>
     (\<not> truthy (field user ''customers'') \<or> field user ''customers'' = JArr [] \<longrightarrow>
        field (JObj kvs) ''planIsActive'' = JBool False)"
proof -
  let ?s = "field (customer_of user) ''stripe_subscription_status''"
  obtain kvs where k: "useFormatUser camelcaseKeys getFriendlyPlanId user = Inr (JObj kvs)"
    and a: "field (JObj kvs) ''planIsActive'' = JBool (planIsActive (customer_of user))"
    using assms by (simp add: useFormatUser_truthy field_set_prop)
  have b: "planIsActive (customer_of user) = (?s = JStr ''active'' \<or> ?s = JStr ''trialing'')"
    by (simp add: planIsActive_def)
  have c: "customer_of user = c"
    if "field user ''customers'' = JArr (c # cs) \<and> truthy c" for c cs
    using that by (simp add: customer_of_first)
  have d: "planIsActive (customer_of user) = False"
    if "\<not> truthy (field user ''customers'') \<or> field user ''customers'' = JArr []"
    using customer_of_none [OF that] by (simp add: planIsActive_def field_def)
  show ?thesis using k a b c d by auto
qed

theorem planIsActive_allow_list_witness:
  "(\<exists>kvs. useFormatUser sample_camelcaseKeys sample_getFriendlyPlanId merged_ada = Inr (JObj kvs) \<and>
      field (JObj kvs) ''planIsActive'' = JBool True) \<and>
   (\<exists>kvs. useFormatUser sample_camelcaseKeys sample_getFriendlyPlanId merged_github =
        Inr (JObj kvs) \<and>
      field (JObj kvs) ''planIsActive'' = JBool False)"
proof -
  have ada: "truthy merged_ada \<and> \<not> nullish (field merged_ada ''app_metadata'')"
    by (simp add: merged_ada_def field_def nullish_def)
  have ada_c: "field merged_ada ''customers'' = JArr (billing_ada # []) \<and> truthy billing_ada"
    by (simp add: merged_ada_def field_def billing_ada_def)
  have ada_s: "field billing_ada ''stripe_subscription_status'' = JStr ''trialing''"
    by (simp add: billing_ada_def field_def)
  have eve: "truthy merged_github \<and> \<not> nullish (field merged_github ''app_metadata'')"
    by (simp add: merged_github_def field_def nullish_def)
  have eve_c: "\<not> truthy (field merged_github ''customers'')"
    by (simp add: merged_github_def field_def)
  have one: "\<exists>kvs. useFormatUser sample_camelcaseKeys sample_getFriendlyPlanId merged_ada =
        Inr (JObj kvs) \<and> field (JObj kvs) ''planIsActive'' = JBool True"
    using planIsActive_allow_list [of merged_ada sample_camelcaseKeys sample_getFriendlyPlanId]
      ada ada_c ada_s by force
  have two: "\<exists>kvs. useFormatUser sample_camelcaseKeys sample_getFriendlyPlanId merged_github =
        Inr (JObj kvs) \<and> field (JObj kvs) ''planIsActive'' = JBool False"
    using planIsActive_allow_list [of merged_github sample_camelcaseKeys sample_getFriendlyPlanId]
      eve eve_c by force
  show ?thesis using one two by blast
qed

text \<open>Claim C6. For every authenticated merged user whose auth provider name is \<open>p\<close>, the
  formatter's \<^verbatim>\<open>providers\<close> property is the one-element array holding \<^verbatim>\<open>"password"\<close> if \<open>p\<close>
  is \<^verbatim>\<open>"email"\<close> and \<open>p\<close> itself otherwise. The billing record is spread into the result
  after \<^verbatim>\<open>providers\<close> is set; its columns (\<^verbatim>\<open>id\<close> and the four \<^verbatim>\<open>stripe_\<close> columns of
  \<^verbatim>\<open>public.customers\<close>) do not camel-case to \<^verbatim>\<open>providers\<close>, which is the third hypothesis.\<close>

theorem providers_singleton:
  assumes "truthy user"
    and "field (field user ''app_metadata'') ''provider'' = JStr p"
    and "''providers'' \<notin> fst ` set (own_props (camelcaseKeys (customer_of user)))"
  shows "\<exists>kvs. useFormatUser camelcaseKeys getFriendlyPlanId user = Inr (JObj kvs) \<and>
     field (JObj kvs) ''providers'' = JArr [JStr (if p = ''email'' then ''password'' else p)]"
proof -
  let ?price = "field (customer_of user) ''stripe_price_id''"
  have nn: "\<not> nullish (field user ''app_metadata'')"
    using assms(2) by (auto simp: nullish_def field_def)
  have none: "map_of (own_props (camelcaseKeys (customer_of user))) ''providers'' = None"
    using assms(3) by (simp add: map_of_eq_None_iff)
  have plan: "map_of (own_props (if truthy ?price
                then JObj [(''planId'', getFriendlyPlanId ?price)] else ?price))
              ''providers'' = None"
    by (cases ?price) auto
  show ?thesis
    using assms(1,2) nn none plan
    by (simp add: useFormatUser_truthy field_set_prop field_spread)
qed

theorem providers_singleton_witness:
  "(\<exists>kvs. useFormatUser sample_camelcaseKeys sample_getFriendlyPlanId merged_ada = Inr (JObj kvs) \<and>
      field (JObj kvs) ''providers'' = JArr [JStr ''password'']) \<and>
   (\<exists>kvs. useFormatUser sample_camelcaseKeys sample_getFriendlyPlanId merged_github =
        Inr (JObj kvs) \<and>
      field (JObj kvs) ''providers'' = JArr [JStr ''github''])"
proof -
  have ada: "truthy merged_ada \<and>
      field (field merged_ada ''app_metadata'') ''provider'' = JStr ''email''"
    by (simp add: merged_ada_def field_def)
  have ada_c: "customer_of merged_ada = billing_ada"
    by (rule customer_of_first [of _ _ "[]"]) (simp_all add: merged_ada_def field_def billing_ada_def)
  have ada_k: "''providers'' \<notin> fst ` set (own_props (sample_camelcaseKeys (customer_of merged_ada)))"
    by (simp add: ada_c billing_ada_def sample_camelcaseKeys_def camel_name_def)
  have eve: "truthy merged_github \<and>
      field (field merged_github ''app_metadata'') ''provider'' = JStr ''github''"
    by (simp add: merged_github_def field_def)
  have eve_c: "customer_of merged_github = JObj []"
    by (rule customer_of_none) (simp add: merged_github_def field_def)
  have eve_k: "''providers'' \<notin> fst ` set (own_props (sample_camelcaseKeys (customer_of merged_github)))"
    by (simp add: eve_c sample_camelcaseKeys_def)
  have one: "\<exists>kvs. useFormatUser sample_camelcaseKeys sample_getFriendlyPlanId merged_ada =
        Inr (JObj kvs) \<and> field (JObj kvs) ''providers'' = JArr [JStr ''password'']"
    using providers_singleton [of merged_ada "''email''" sample_camelcaseKeys sample_getFriendlyPlanId]
      ada ada_k by simp
  have two: "\<exists>kvs. useFormatUser sample_camelcaseKeys sample_getFriendlyPlanId merged_github =
        Inr (JObj kvs) \<and> field (JObj kvs) ''providers'' = JArr [JStr ''github'']"
    using providers_singleton [of merged_github "''github''" sample_camelcaseKeys sample_getFriendlyPlanId]
      eve eve_k by simp
  show ?thesis using one two by blast
qed

section \<open>The Session State Machine\<close>

lemma handleError_passes:
  "\<not> nullish response \<Longrightarrow> \<not> truthy (field response ''error'') \<Longrightarrow> handleError response = Inr response"
  by (simp add: handleError_def get_prop_def)

text \<open>Claim C2. Let the provider call of \<^verbatim>\<open>signup\<close> or \<^verbatim>\<open>signin\<close> answer with a response that
  \<^verbatim>\<open>handleError\<close> accepts (its \<^verbatim>\<open>error\<close> is \<^verbatim>\<open>null\<close>, or any falsy value) and that carries a user.
  If the user's \<^verbatim>\<open>email_confirmed_at\<close> is absent (\<^verbatim>\<open>undefined\<close>, \<^verbatim>\<open>null\<close>; anything falsy), the
  returned promise is rejected with the unconfirmed-email error and the \<^verbatim>\<open>user\<close> state is
  what it was. If the timestamp is present (truthy, as every non-empty string is), the
  \<^verbatim>\<open>user\<close> state becomes that user and the promise is fulfilled with it.\<close>

theorem handleAuth_email_confirmation:
  assumes "call email password = Settles n (Inr response)"
    and "\<not> nullish response"
    and "\<not> truthy (field response ''error'')"
    and "\<not> nullish (field response ''user'')"
  shows "(\<not> truthy (field (field response ''user'') ''email_confirmed_at'') \<longrightarrow>
            signup call email password cur = (Settles n (Inl (JsError unconfirmed_message)), cur) \<and>
            signin call email password cur = (Settles n (Inl (JsError unconfirmed_message)), cur)) \<and>
         (truthy (field (field response ''user'') ''email_confirmed_at'') \<longrightarrow>
            signup call email password cur =
              (Settles n (Inr (field response ''user'')), field response ''user'') \<and>
            signin call email password cur =
              (Settles n (Inr (field response ''user'')), field response ''user''))"
  using assms
  by (simp add: signup_def signin_def handleError_passes handleAuth_def get_prop_def)

theorem handleAuth_email_confirmation_witness:
  "signup (provider_answers (JObj [(''user'', session_unconfirmed), (''error'', JNull)]))
      (JStr ''bob@auth.io'') (JStr ''secret'') (JBool False) =
     (Settles 1 (Inl (JsError unconfirmed_message)), JBool False) \<and>
   signin (provider_answers (JObj [(''user'', session_ada), (''error'', JNull)]))
      (JStr ''ada@auth.io'') (JStr ''secret'') (JBool False) =
     (Settles 1 (Inr session_ada), session_ada)"
proof -
  let ?r1 = "JObj [(''user'', session_unconfirmed), (''error'', JNull)]"
  let ?r2 = "JObj [(''user'', session_ada), (''error'', JNull)]"
  have a: "provider_answers ?r1 (JStr ''bob@auth.io'') (JStr ''secret'') = Settles 1 (Inr ?r1)"
    by (simp add: provider_answers_def)
  have b: "\<not> nullish ?r1" "\<not> truthy (field ?r1 ''error'')" "\<not> nullish (field ?r1 ''user'')"
    by (simp_all add: nullish_def field_def session_unconfirmed_def)
  have b': "\<not> truthy (field (field ?r1 ''user'') ''email_confirmed_at'')"
    by (simp add: field_def session_unconfirmed_def)
  have c: "provider_answers ?r2 (JStr ''ada@auth.io'') (JStr ''secret'') = Settles 1 (Inr ?r2)"
    by (simp add: provider_answers_def)
  have d: "\<not> nullish ?r2" "\<not> truthy (field ?r2 ''error'')" "\<not> nullish (field ?r2 ''user'')"
    by (simp_all add: nullish_def field_def session_ada_def)
  have d': "truthy (field (field ?r2 ''user'') ''email_confirmed_at'')"
    by (simp add: field_def session_ada_def)
  have e: "field ?r2 ''user'' = session_ada"
    by (simp add: field_def)
  have one: "signup (provider_answers ?r1) (JStr ''bob@auth.io'') (JStr ''secret'') (JBool False) =
     (Settles 1 (Inl (JsError unconfirmed_message)), JBool False)"
    using handleAuth_email_confirmation [of "provider_answers ?r1" "JStr ''bob@auth.io''"
        "JStr ''secret''" 1 ?r1 "JBool False", OF a b] b'
    by blast
  have "signin (provider_answers ?r2) (JStr ''ada@auth.io'') (JStr ''secret'') (JBool False) =
     (Settles 1 (Inr (field ?r2 ''user'')), field ?r2 ''user'')"
    using handleAuth_email_confirmation [of "provider_answers ?r2" "JStr ''ada@auth.io''"
        "JStr ''secret''" 1 ?r2 "JBool False", OF c d] d'
    by blast
  then have two: "signin (provider_answers ?r2) (JStr ''ada@auth.io'') (JStr ''secret'')
      (JBool False) = (Settles 1 (Inr session_ada), session_ada)"
    by (simp only: e)
  show ?thesis using one two by blast
qed

text \<open>Claim C10. When the provider's response is accepted by \<^verbatim>\<open>handleError\<close> but its \<^verbatim>\<open>user\<close>
  is \<^verbatim>\<open>null\<close> or \<^verbatim>\<open>undefined\<close>, \<^verbatim>\<open>handleAuth\<close> reads \<^verbatim>\<open>user.email_confirmed_at\<close> unguarded:
  the promise of \<^verbatim>\<open>signup\<close> and of \<^verbatim>\<open>signin\<close> is rejected with the runtime's \<^verbatim>\<open>TypeError\<close>,
  neither with the unconfirmed-email error nor with a provider error, and the \<^verbatim>\<open>user\<close> state
  is what it was.\<close>

theorem handleAuth_missing_user:
  assumes "call email password = Settles n (Inr response)"
    and "\<not> nullish response"
    and "\<not> truthy (field response ''error'')"
    and "nullish (field response ''user'')"
  shows "signup call email password cur = (Settles n (Inl TypeError), cur) \<and>
         signin call email password cur = (Settles n (Inl TypeError), cur)"
  using assms
  by (simp add: signup_def signin_def handleError_passes handleAuth_def get_prop_def)

theorem handleAuth_missing_user_witness:
  "signup (provider_answers (JObj [(''user'', JNull), (''error'', JNull)]))
      (JStr ''bob@auth.io'') (JStr ''secret'') (JBool False) =
     (Settles 1 (Inl TypeError), JBool False) \<and>
   signin (provider_answers (JObj [(''error'', JNull)]))
      (JStr ''bob@auth.io'') (JStr ''secret'') session_ada =
     (Settles 1 (Inl TypeError), session_ada)"
proof -
  let ?r1 = "JObj [(''user'', JNull), (''error'', JNull)]"
  let ?r2 = "JObj [(''error'', JNull)]"
  have a: "provider_answers ?r1 (JStr ''bob@auth.io'') (JStr ''secret'') = Settles 1 (Inr ?r1)"
    by (simp add: provider_answers_def)
  have b: "\<not> nullish ?r1 \<and> \<not> truthy (field ?r1 ''error'') \<and> nullish (field ?r1 ''user'')"
    by (simp add: nullish_def field_def)
  have c: "provider_answers ?r2 (JStr ''bob@auth.io'') (JStr ''secret'') = Settles 1 (Inr ?r2)"
    by (simp add: provider_answers_def)
  have d: "\<not> nullish ?r2 \<and> \<not> truthy (field ?r2 ''error'') \<and> nullish (field ?r2 ''user'')"
    by (simp add: nullish_def field_def)
  show ?thesis
    using a b c d
      handleAuth_missing_user [of "provider_answers ?r1" "JStr ''bob@auth.io''"
        "JStr ''secret''" 1 ?r1 "JBool False"]
      handleAuth_missing_user [of "provider_answers ?r2" "JStr ''bob@auth.io''"
        "JStr ''secret''" 1 ?r2 session_ada]
    by simp
qed

text \<open>Claim C7. For every provider name, when the provider call answers without an error,
  the promise returned by \<^verbatim>\<open>signinWithProvider(name)\<close> is the one that never settles: at
  every turn of the event loop it is pending, neither fulfilled nor rejected.\<close>

theorem signinWithProvider_never_settles:
  assumes "signIn name = Settles n (Inr response)"
    and "\<not> nullish response"
    and "\<not> truthy (field response ''error'')"
  shows "signinWithProvider signIn name = Never \<and>
         (\<forall>t. state_at (signinWithProvider signIn name) t = Pending)"
  using assms by (simp add: signinWithProvider_def handleError_passes)

theorem signinWithProvider_never_settles_witness:
  "signinWithProvider provider_redirects (JStr ''github'') = Never \<and>
   state_at (signinWithProvider provider_redirects (JStr ''github'')) 0 = Pending \<and>
   state_at (signinWithProvider provider_redirects (JStr ''github'')) 1000000 = Pending"
proof -
  let ?r = "JObj [(''user'', JNull), (''error'', JNull)]"
  have a: "provider_redirects (JStr ''github'') = Settles 1 (Inr ?r)"
    by (simp add: provider_redirects_def)
  have b: "\<not> nullish ?r" "\<not> truthy (field ?r ''error'')"
    by (simp_all add: nullish_def field_def)
  show ?thesis
    using a b signinWithProvider_never_settles [of provider_redirects "JStr ''github''" 1 ?r]
    by simp
qed










section \<open>The Gate\<close>

lemma requireAuth_view: "fst (requireAuth a g) = (if truthy (snd a) then Component else PageLoader)"
  by (simp add: requireAuth_def)

lemma mount_state:
  "deps (gate_state (mount u)) = Some (fst (current_auth (mount u))) \<and>
   fst (current_auth (mount u)) < next_ref (mount u) \<and>
   snd (current_auth (mount u)) = u \<and>
   shown (mount u) = (if truthy u then Component else PageLoader) \<and>
   redirects (gate_state (mount u)) = (if u = JBool False then 1 else 0)"
  by (simp add: mount_def requireAuth_def)

lemma render_step_state:
  assumes "deps (gate_state s) = Some (fst (current_auth s))"
    and "fst (current_auth s) < next_ref s"
    and "shown s = (if truthy (snd (current_auth s)) then Component else PageLoader)"
  shows "deps (gate_state (render_step r s)) = Some (fst (current_auth (render_step r s))) \<and>
     fst (current_auth (render_step r s)) < next_ref (render_step r s) \<and>
     shown (render_step r s) =
       (if truthy (snd (current_auth (render_step r s))) then Component else PageLoader) \<and>
     snd (current_auth (render_step r s)) = last (snd (current_auth s) # provider_users [r]) \<and>
     redirects (gate_state (render_step r s)) =
       redirects (gate_state s) + length (filter (\<lambda>x. x = JBool False) (provider_users [r]))"
proof (cases r)
  case (ProviderRender u)
  have "deps (gate_state s) \<noteq> Some (next_ref s)"
    using assms(1,2) by simp
  then show ?thesis
    using ProviderRender by (simp add: requireAuth_def)
next
  case GateRender
  then show ?thesis
    using assms by (simp add: requireAuth_def)
qed

lemma fold_render_step_state:
  assumes "deps (gate_state s) = Some (fst (current_auth s))"
    and "fst (current_auth s) < next_ref s"
    and "shown s = (if truthy (snd (current_auth s)) then Component else PageLoader)"
  shows "shown (fold render_step rs s) =
       (if truthy (last (snd (current_auth s) # provider_users rs)) then Component else PageLoader) \<and>
     redirects (gate_state (fold render_step rs s)) =
       redirects (gate_state s) + length (filter (\<lambda>x. x = JBool False) (provider_users rs))"
  using assms
proof (induction rs arbitrary: s)
  case Nil
  then show ?case by simp
next
  case (Cons r rs)
  note step = render_step_state [OF Cons.prems, of r]
  have ih: "shown (fold render_step rs (render_step r s)) =
       (if truthy (last (snd (current_auth (render_step r s)) # provider_users rs))
        then Component else PageLoader) \<and>
     redirects (gate_state (fold render_step rs (render_step r s))) =
       redirects (gate_state (render_step r s)) +
       length (filter (\<lambda>x. x = JBool False) (provider_users rs))"
    using Cons.IH [of "render_step r s"] step by blast
  show ?case
  proof (cases r)
    case (ProviderRender u)
    then show ?thesis using ih step by simp
  next
    case GateRender
    then show ?thesis using ih step by simp
  qed
qed

lemma entries_into_false_le:
  "entries_into_false prev us \<le> length (filter (\<lambda>x. x = JBool False) us)"
proof (induction us arbitrary: prev)
  case Nil
  then show ?case by simp
next
  case (Cons u us)
  show ?case using Cons.IH [of u] by (cases "u = JBool False") auto
qed

text \<open>Claim C9 says that the redirect happens exactly once per transition into Anonymous.
  The effect is keyed on the \<^verbatim>\<open>auth\<close> object, and \<^verbatim>\<open>useAuthProvider\<close> returns a new object at
  every render of \<^verbatim>\<open>AuthProvider\<close>. Here the wrapper mounts while the user is loading, the
  user becomes \<^verbatim>\<open>false\<close>, and \<^verbatim>\<open>AuthProvider\<close> renders once more with the user still \<^verbatim>\<open>false\<close>:
  one transition into Anonymous, two calls of \<^verbatim>\<open>history.replace\<close>.\<close>

theorem requireAuth_redirect_counterexample:
  "transitions_into_anonymous JNull [ProviderRender (JBool False), ProviderRender (JBool False)] = 1 \<and>
   redirects (gate_state
     (renders JNull [ProviderRender (JBool False), ProviderRender (JBool False)])) = 2"
  by (simp add: transitions_into_anonymous_def renders_def mount_def requireAuth_def)

text \<open>Claim C9, amended. The wrapper shows the placeholder whenever \<^verbatim>\<open>auth.user\<close> is falsy
  (\<^verbatim>\<open>null\<close>, loading, or \<^verbatim>\<open>false\<close>, logged out) and the protected component exactly when it is
  an authenticated user (truthy); so does the view on screen after any sequence of renders.
  The redirect is performed once for every \<^verbatim>\<open>auth\<close> object whose \<^verbatim>\<open>user\<close> is \<^verbatim>\<open>false\<close>, that is
  once at mount if the user is \<^verbatim>\<open>false\<close> then and once per later render of \<^verbatim>\<open>AuthProvider\<close>
  with the user \<^verbatim>\<open>false\<close>; renders of the wrapper with an unchanged \<^verbatim>\<open>auth\<close> object add none.
  Every transition into Anonymous is among these, so it is followed by a redirect.\<close>

theorem requireAuth_gate:
  "fst (requireAuth a g) = (if truthy (snd a) then Component else PageLoader) \<and>
   shown (renders u rs) =
     (if truthy (last (u # provider_users rs)) then Component else PageLoader) \<and>
   redirects (gate_state (renders u rs)) =
     length (filter (\<lambda>x. x = JBool False) (u # provider_users rs)) \<and>
   transitions_into_anonymous u rs \<le> redirects (gate_state (renders u rs))"
proof -
  note m = mount_state [of u]
  have f: "shown (fold render_step rs (mount u)) =
       (if truthy (last (snd (current_auth (mount u)) # provider_users rs))
        then Component else PageLoader) \<and>
     redirects (gate_state (fold render_step rs (mount u))) =
       redirects (gate_state (mount u)) +
       length (filter (\<lambda>x. x = JBool False) (provider_users rs))"
    using fold_render_step_state [of "mount u" rs] m by simp
  have r: "redirects (gate_state (renders u rs)) =
     length (filter (\<lambda>x. x = JBool False) (u # provider_users rs))"
    using f m by (simp add: renders_def)
  have s: "shown (renders u rs) =
     (if truthy (last (u # provider_users rs)) then Component else PageLoader)"
    using f m by (simp add: renders_def)
  have t: "transitions_into_anonymous u rs \<le> redirects (gate_state (renders u rs))"
    unfolding r transitions_into_anonymous_def by (rule entries_into_false_le)
  show ?thesis using r s t requireAuth_view by simp
qed

theorem requireAuth_gate_witness:
  "fst (requireAuth (0, JNull) \<lparr>deps = None, redirects = 0\<rparr>) = PageLoader \<and>
   fst (requireAuth (1, JBool False) \<lparr>deps = Some 0, redirects = 0\<rparr>) = PageLoader \<and>
   fst (requireAuth (2, merged_ada) \<lparr>deps = Some 1, redirects = 1\<rparr>) = Component \<and>
   shown (renders JNull [ProviderRender (JBool False), GateRender, GateRender]) = PageLoader \<and>
   redirects (gate_state (renders JNull [ProviderRender (JBool False), GateRender, GateRender])) = 1 \<and>
   shown (renders JNull [ProviderRender merged_ada, GateRender]) = Component \<and>
   redirects (gate_state (renders JNull [ProviderRender merged_ada, GateRender])) = 0"
proof -
  have t: "truthy merged_ada" "merged_ada \<noteq> JBool False"
    by (simp_all add: merged_ada_def)
  show ?thesis
    using t
      requireAuth_gate [of "(0, JNull)" "\<lparr>deps = None, redirects = 0\<rparr>" JNull
        "[ProviderRender (JBool False), GateRender, GateRender]"]
      requireAuth_gate [of "(1, JBool False)" "\<lparr>deps = Some 0, redirects = 0\<rparr>" JNull
        "[ProviderRender merged_ada, GateRender]"]
      requireAuth_gate [of "(2, merged_ada)" "\<lparr>deps = Some 1, redirects = 1\<rparr>" JNull "[]"]
    by simp
qed

section \<open>The Data Merge Stage and the Profile Store Accessor\<close>

lemma active_key_switch_key: "active_key (switch_key k a) = k"
  by (simp add: switch_key_def)

lemma active_key_deliver: "active_key (deliver k r a) = active_key a"
  by (simp add: deliver_def)

lemma deliver_stale: "k \<noteq> active_key a \<Longrightarrow> deliver k r a = a"
  by (simp add: deliver_def)

lemma deliver_disabled: "\<not> truthy (active_key a) \<Longrightarrow> deliver k r a = a"
  by (simp add: deliver_def)

lemma fold_merge_step_fresh:
  assumes "\<forall>e\<in>set es. is_result e"
  shows "fold merge_step es (cur, a) =
         fold merge_step (filter (fresh_for (active_key a)) es) (cur, a)"
  using assms
proof (induction es arbitrary: a)
  case Nil
  then show ?case by simp
next
  case (Cons e es)
  then obtain k r where e: "e = StoreResult k r"
    by (cases e) auto
  have ih: "fold merge_step es (cur, deliver k r a) =
         fold merge_step (filter (fresh_for (active_key a)) es) (cur, deliver k r a)"
    using Cons.IH [of "deliver k r a"] Cons.prems by (simp add: active_key_deliver)
  show ?case
  proof (cases "k = active_key a")
    case True
    then show ?thesis using e ih by simp
  next
    case False
    then show ?thesis using e ih by (simp add: deliver_stale)
  qed
qed

lemma fold_merge_step_disabled:
  assumes "\<forall>e\<in>set es. is_result e" and "\<not> truthy (active_key a)"
  shows "fold merge_step es (cur, a) = (cur, a)"
  using assms
proof (induction es)
  case Nil
  then show ?case by simp
next
  case (Cons e es)
  then obtain k r where e: "e = StoreResult k r"
    by (cases e) auto
  show ?case using Cons e by (simp add: deliver_disabled)
qed

text \<open>Claim C4. Let the session change to a user \<open>uB\<close>, so that the profile query is keyed by
  \<open>uB\<close>'s id, or disabled if \<open>uB\<close> is not an authenticated user. A result issued for another
  id \<open>kA\<close> that arrives afterwards leaves the state as it is. For any sequence of results
  arriving afterwards, the merged user is the one obtained from the results issued for
  \<open>uB\<close>'s id alone; and if the query is disabled, the merged user is not affected by any of
  them.\<close>

theorem stale_profile_result_discarded:
  assumes "\<forall>e\<in>set es. is_result e"
  shows "(kA \<noteq> useUser_key MERGE_DB_USER uB \<longrightarrow>
            merge_step (StoreResult kA r) (merge_step (SessionChange uB) s) =
              merge_step (SessionChange uB) s) \<and>
         merged_user (fold merge_step es (merge_step (SessionChange uB) s)) =
           merged_user (fold merge_step (filter (fresh_for (useUser_key MERGE_DB_USER uB)) es)
             (merge_step (SessionChange uB) s)) \<and>
         (\<not> truthy (useUser_key MERGE_DB_USER uB) \<longrightarrow>
            merged_user (fold merge_step es (merge_step (SessionChange uB) s)) =
              merged_user (merge_step (SessionChange uB) s))"
proof -
  obtain cur a where s: "s = (cur, a)"
    by (cases s)
  let ?kB = "useUser_key MERGE_DB_USER uB"
  have st: "merge_step (SessionChange uB) s = (uB, switch_key ?kB a)"
    by (simp add: s)
  have k: "active_key (switch_key ?kB a) = ?kB"
    by (rule active_key_switch_key)
  have one: "merge_step (StoreResult kA r) (merge_step (SessionChange uB) s) =
              merge_step (SessionChange uB) s" if "kA \<noteq> ?kB"
    using that by (simp add: st deliver_stale k)
  have two: "fold merge_step es (merge_step (SessionChange uB) s) =
           fold merge_step (filter (fresh_for ?kB) es) (merge_step (SessionChange uB) s)"
    using fold_merge_step_fresh [OF assms, of uB "switch_key ?kB a"] by (simp add: st k)
  have three: "fold merge_step es (merge_step (SessionChange uB) s) =
              merge_step (SessionChange uB) s" if "\<not> truthy ?kB"
    using fold_merge_step_disabled [OF assms, of "switch_key ?kB a" uB] that by (simp add: st k)
  show ?thesis using one two three by simp
qed

theorem stale_profile_result_discarded_witness:
  "merge_step (StoreResult (JStr ''U'') query_present)
     (merge_step (SessionChange session_unconfirmed)
        (session_ada, \<lparr>active_key = JStr ''U'', reported = query_present\<rparr>)) =
   merge_step (SessionChange session_unconfirmed)
     (session_ada, \<lparr>active_key = JStr ''U'', reported = query_present\<rparr>) \<and>
   merged_user (fold merge_step [StoreResult (JStr ''U'') query_present]
     (merge_step (SessionChange session_unconfirmed)
        (session_ada, \<lparr>active_key = JStr ''U'', reported = query_present\<rparr>))) = Inr JNull \<and>
   merged_user (fold merge_step [StoreResult (JStr ''U'') query_present]
     (merge_step (SessionChange (JBool False))
        (session_ada, \<lparr>active_key = JStr ''U'', reported = query_present\<rparr>))) =
     Inr (JBool False)"
proof -
  let ?s = "(session_ada, \<lparr>active_key = JStr ''U'', reported = query_present\<rparr>)"
  let ?es = "[StoreResult (JStr ''U'') query_present]"
  have es: "\<forall>e\<in>set ?es. is_result e"
    by simp
  have kB: "useUser_key MERGE_DB_USER session_unconfirmed = JStr ''V''"
    by (simp add: useUser_key_def MERGE_DB_USER_def session_unconfirmed_def field_def)
  have kF: "useUser_key MERGE_DB_USER (JBool False) = JBool False"
    by (simp add: useUser_key_def MERGE_DB_USER_def)
  have ne: "JStr ''U'' \<noteq> useUser_key MERGE_DB_USER session_unconfirmed"
    by (simp add: kB)
  have f: "filter (fresh_for (useUser_key MERGE_DB_USER session_unconfirmed)) ?es = []"
    by (simp add: kB)
  have sw: "merge_step (SessionChange session_unconfirmed) ?s =
      (session_unconfirmed, \<lparr>active_key = JStr ''V'', reported = loading_result\<rparr>)"
    by (simp add: kB switch_key_def)
  have ld: "useMergeExtraData session_unconfirmed MERGE_DB_USER loading_result = Inr JNull"
    by (simp add: useMergeExtraData_def loading_result_def MERGE_DB_USER_def
          session_unconfirmed_def)
  have b: "merged_user (merge_step (SessionChange session_unconfirmed) ?s) = Inr JNull"
    unfolding sw by (simp add: merged_user_def ld)
  have c: "merged_user (merge_step (SessionChange (JBool False)) ?s) = Inr (JBool False)"
    by (simp add: kF merged_user_def useMergeExtraData_def)
  note t1 = stale_profile_result_discarded [OF es, of "JStr ''U''" session_unconfirmed
      query_present ?s]
  note t2 = stale_profile_result_discarded [OF es, of "JStr ''U''" "JBool False" query_present ?s]
  have one: "merge_step (StoreResult (JStr ''U'') query_present)
      (merge_step (SessionChange session_unconfirmed) ?s) =
      merge_step (SessionChange session_unconfirmed) ?s"
    using t1 ne by blast
  have "merged_user (fold merge_step ?es (merge_step (SessionChange session_unconfirmed) ?s)) =
      merged_user (fold merge_step
        (filter (fresh_for (useUser_key MERGE_DB_USER session_unconfirmed)) ?es)
        (merge_step (SessionChange session_unconfirmed) ?s))"
    using t1 by blast
  then have two: "merged_user (fold merge_step ?es
      (merge_step (SessionChange session_unconfirmed) ?s)) = Inr JNull"
    by (simp only: f fold_simps b)
  have "merged_user (fold merge_step ?es (merge_step (SessionChange (JBool False)) ?s)) =
      merged_user (merge_step (SessionChange (JBool False)) ?s)"
    using t2 kF by simp
  then have three: "merged_user (fold merge_step ?es
      (merge_step (SessionChange (JBool False)) ?s)) = Inr (JBool False)"
    by (simp only: c)
  show ?thesis using one two three by blast
qed

end
